theory Spec2Isabelle
  imports Main "HOL-Library.Multiset" "HOL-Library.Sublist"
begin

section \<open>Data model\<close>

text \<open>
  A Python \<open>str\<close> is a sequence of Unicode code points. The part-of-speech tags the
  program compares against are Japanese, so a string is modelled as the list of its code
  points rather than as a list of 8-bit characters.
\<close>

type_synonym str = "nat list"

text \<open>
  Every dictionary the program handles has a \<open>'pronunciation'\<close> key, and
  \<open>calculate_distance\<close> reads only that key from both arguments. The three dictionary
  shapes are therefore records extending one parent that holds the pronunciation:
  a token (built in \<open>tokenize\<close>), a phrase (\<open>{'surface', 'pronunciation'}\<close>, built in
  \<open>split_text_into_phrases\<close>) and a word-list entry (\<open>{'id', 'surface', 'pronunciation'}\<close>,
  built in \<open>load_wordlist\<close>). The key \<open>'id'\<close> is named \<open>id_entry\<close> here.
\<close>

record pronounced =
  pronunciation :: str

record token = pronounced +
  surface_form :: str
  pos :: str
  pos_detail_1 :: str
  pos_detail_2 :: str
  pos_detail_3 :: str
  conjugated_type :: str
  conjugated_form :: str
  basic_form :: str
  reading :: str

record phrase = pronounced +
  surface :: str

record word_entry = phrase +
  id_entry :: nat


text \<open>The only exception the program's own code can raise: a list index out of range.\<close>

datatype error = IndexError

section \<open>Ranking by edit distance\<close>

text \<open>
  \<open>ed.eval\<close> comes from the external \<open>editdistance\<close> package; it is a parameter
  \<open>ed_eval\<close> of every function that calls it, and nothing is assumed about it.
  \<open>levenshtein\<close> below is the unit-cost edit distance, used where a concrete distance is
  needed to evaluate an example.
\<close>

fun levenshtein :: "str \<Rightarrow> str \<Rightarrow> nat" where
  "levenshtein [] ys = length ys"
| "levenshtein (x # xs) [] = Suc (length xs)"
| "levenshtein (x # xs) (y # ys) =
     (if x = y then levenshtein xs ys
      else Suc (min (levenshtein xs ys) (min (levenshtein xs (y # ys)) (levenshtein (x # xs) ys))))"

definition calculate_distance ::
  "(str \<Rightarrow> str \<Rightarrow> nat) \<Rightarrow> 'a pronounced_scheme \<Rightarrow> 'b pronounced_scheme \<Rightarrow> nat" where
  "calculate_distance ed_eval dict1 dict2 = ed_eval (pronunciation dict1) (pronunciation dict2)"

text \<open>
  Python's \<open>sorted(xs, key=f)\<close> builds a new list and is a stable sort; \<open>sort_key\<close> is the
  stable insertion sort of the list library.
\<close>

definition sorted_key :: "('a \<Rightarrow> nat) \<Rightarrow> 'a list \<Rightarrow> 'a list" where
  "sorted_key key xs = sort_key key xs"

definition sort_by_distance ::
  "(str \<Rightarrow> str \<Rightarrow> nat) \<Rightarrow> 'a pronounced_scheme \<Rightarrow> 'b pronounced_scheme list
     \<Rightarrow> 'b pronounced_scheme list" where
  "sort_by_distance ed_eval target_word wordlist =
     (let distances = map (\<lambda>word. (word, calculate_distance ed_eval target_word word)) wordlist;
          sorted_distances = sorted_key snd distances;
          sorted_wordlist = map fst sorted_distances
      in sorted_wordlist)"

text \<open>Python's \<open>xs[i]\<close> for a non-negative \<open>i\<close>: out of range raises \<open>IndexError\<close>.\<close>

definition index :: "'a list \<Rightarrow> nat \<Rightarrow> error + 'a" where
  "index xs i = (if i < length xs then Inr (xs ! i) else Inl IndexError)"

text \<open>
  Lines 177 and 179 of \<open>find_closest_words\<close>: \<open>sort_by_distance(phrase, wordlist)[0]\<close>, which
  the specification calls \<open>match_closest\<close>.
\<close>

definition match_closest ::
  "(str \<Rightarrow> str \<Rightarrow> nat) \<Rightarrow> phrase \<Rightarrow> word_entry list \<Rightarrow> error + word_entry" where
  "match_closest ed_eval phrase wordlist =
     (let sorted_words = sort_by_distance ed_eval phrase wordlist in index sorted_words 0)"


text \<open>
  The same call with the lists as objects in a store, so that what the call does to the
  list it is given can be stated. An address is a position in the store; the list
  comprehensions and \<open>sorted\<close> each allocate a new list, and no statement of
  \<open>sort_by_distance\<close> writes to an existing one. The call fails (\<open>None\<close>) only when
  \<open>wordlist\<close> is not the address of a word list.
\<close>

datatype obj = WordList "word_entry list" | Distances "(word_entry \<times> nat) list"

type_synonym store = "obj list"

definition alloc :: "store \<Rightarrow> obj \<Rightarrow> store \<times> nat" where
  "alloc h v = (h @ [v], length h)"

definition sort_by_distance_store ::
  "(str \<Rightarrow> str \<Rightarrow> nat) \<Rightarrow> phrase \<Rightarrow> nat \<Rightarrow> store \<Rightarrow> (store \<times> nat) option" where
  "sort_by_distance_store ed_eval target_word wordlist h =
     (if wordlist < length h then
        (case h ! wordlist of
           WordList ws \<Rightarrow>
             (let (h1, distances) =
                    alloc h (Distances (map (\<lambda>word. (word, calculate_distance ed_eval target_word word)) ws));
                  ds = (case h1 ! distances of Distances ds \<Rightarrow> ds | WordList _ \<Rightarrow> []);
                  (h2, sorted_distances) = alloc h1 (Distances (sorted_key snd ds));
                  sds = (case h2 ! sorted_distances of Distances ds \<Rightarrow> ds | WordList _ \<Rightarrow> []);
                  (h3, sorted_wordlist) = alloc h2 (WordList (map fst sds))
              in Some (h3, sorted_wordlist))
         | Distances _ \<Rightarrow> None)
      else None)"

section \<open>Strings\<close>

text \<open>\<open>s.split(sep)\<close> for a separator of one character: always at least one piece.\<close>

fun split_aux :: "nat \<Rightarrow> str \<Rightarrow> str \<Rightarrow> str list" where
  "split_aux sep cur [] = [cur]"
| "split_aux sep cur (c # cs) =
     (if c = sep then cur # split_aux sep [] cs else split_aux sep (cur @ [c]) cs)"

definition str_split :: "nat \<Rightarrow> str \<Rightarrow> str list" where
  "str_split sep s = split_aux sep [] s"

text \<open>
  \<open>s.splitlines()\<close>: a line ends at \<open>\n\<close>, \<open>\r\<close>, \<open>\r\n\<close>, \<open>\v\<close>, \<open>\f\<close>, \<open>\x1c\<close>, \<open>\x1d\<close>,
  \<open>\x1e\<close>, \<open>\x85\<close>, U+2028 or U+2029; the line ends are dropped, and a string that ends
  with a line end has no empty last line.
\<close>

definition is_linebreak :: "nat \<Rightarrow> bool" where
  "is_linebreak c = (c \<in> {10, 11, 12, 13, 28, 29, 30, 133, 8232, 8233})"

fun splitlines_aux :: "str \<Rightarrow> str \<Rightarrow> str list" where
  "splitlines_aux cur [] = (if cur = [] then [] else [cur])"
| "splitlines_aux cur [c] = (if is_linebreak c then [cur] else [cur @ [c]])"
| "splitlines_aux cur (c # d # cs) =
     (if c = 13 \<and> d = 10 then cur # splitlines_aux [] cs
      else if is_linebreak c then cur # splitlines_aux [] (d # cs)
      else splitlines_aux (cur @ [c]) (d # cs))"

definition str_splitlines :: "str \<Rightarrow> str list" where
  "str_splitlines s = splitlines_aux [] s"

text \<open>\<open>sep.join(xs)\<close>.\<close>

fun str_join :: "str \<Rightarrow> str list \<Rightarrow> str" where
  "str_join sep [] = []"
| "str_join sep [x] = x"
| "str_join sep (x # y # ys) = x @ sep @ str_join sep (y # ys)"

text \<open>\<open>sub in s\<close> on strings: \<open>sub\<close> occurs in \<open>s\<close> as a contiguous run.\<close>

fun contains :: "str \<Rightarrow> str \<Rightarrow> bool" where
  "contains sub [] = (sub = [])"
| "contains sub (c # cs) = (prefix sub (c # cs) \<or> contains sub cs)"

definition TAB :: nat where "TAB = 9"
definition COMMA :: nat where "COMMA = 44"
definition STAR :: str where "STAR = [42]"

section \<open>Tokenizing\<close>

text \<open>
  The dictionary literal of \<open>tokenize\<close> (lines 62 to 73): \<open>pos_info[0]\<close> is read
  unguarded, every later field behind a length test.
\<close>

definition build_token :: "str \<Rightarrow> str list \<Rightarrow> error + token" where
  "build_token word_surface pos_info =
     (case index pos_info 0 of
        Inl e \<Rightarrow> Inl e
      | Inr p \<Rightarrow> Inr
         \<lparr> pronunciation = (if length pos_info > 8 then pos_info ! 8 else []),
           surface_form = word_surface,
           pos = p,
           pos_detail_1 = (if length pos_info > 1 then pos_info ! 1 else STAR),
           pos_detail_2 = (if length pos_info > 2 then pos_info ! 2 else STAR),
           pos_detail_3 = (if length pos_info > 3 then pos_info ! 3 else STAR),
           conjugated_type = (if length pos_info > 4 then pos_info ! 4 else STAR),
           conjugated_form = (if length pos_info > 5 then pos_info ! 5 else STAR),
           basic_form = (if length pos_info > 6 then pos_info ! 6 else word_surface),
           reading = (if length pos_info > 7 then pos_info ! 7 else []) \<rparr>)"

text \<open>Lines 59 to 73: one output line of the tagger that contains a tab.\<close>

definition token_of_line :: "str \<Rightarrow> error + token" where
  "token_of_line line =
     (let parts = str_split TAB line in
      case index parts 0 of
        Inl e \<Rightarrow> Inl e
      | Inr word_surface \<Rightarrow>
          (case index parts 1 of
             Inl e \<Rightarrow> Inl e
           | Inr grammar \<Rightarrow> build_token word_surface (str_split COMMA grammar)))"

fun tokenize_loop :: "token list \<Rightarrow> str list \<Rightarrow> error + token list" where
  "tokenize_loop tokens [] = Inr tokens"
| "tokenize_loop tokens (line # mecab_result) =
     (if TAB \<notin> set line then tokenize_loop tokens mecab_result
      else (case token_of_line line of
              Inl e \<Rightarrow> Inl e
            | Inr token \<Rightarrow> tokenize_loop (tokens @ [token]) mecab_result))"

text \<open>
  \<open>tokenize\<close>; the tagger's \<open>self.m.parse\<close> is external and is the parameter \<open>parse\<close>.
  \<open>mecab_result[:-1]\<close> drops the last line.
\<close>

definition tokenize :: "(str \<Rightarrow> str) \<Rightarrow> str \<Rightarrow> error + token list" where
  "tokenize parse text =
     (let mecab_result = str_splitlines (parse text);
          mecab_result = butlast mecab_result
      in tokenize_loop [] mecab_result)"

section \<open>Phrase segmentation\<close>

text \<open>
  The string literals of \<open>split_text_into_phrases\<close>, by code point:
  noun U+540D U+8A5E, verb U+52D5 U+8A5E, prefix U+63A5 U+982D U+8A5E, adverb U+526F U+8A5E,
  interjection U+611F U+52D5 U+8A5E, adjective U+5F62 U+5BB9 U+8A5E,
  adjectival noun U+5F62 U+5BB9 U+52D5 U+8A5E, adnominal U+9023 U+4F53 U+8A5E;
  suffix U+63A5 U+5C3E, irregular verbal-noun connection U+30B5 U+5909 U+63A5 U+7D9A,
  non-independent U+975E U+81EA U+7ACB, and the conjugation type
  U+30B5 U+5909 U+30FB U+30B9 U+30EB.
\<close>

definition meishi :: str where "meishi = [21517, 35422]"
definition doushi :: str where "doushi = [21205, 35422]"
definition settoushi :: str where "settoushi = [25509, 38957, 35422]"
definition fukushi :: str where "fukushi = [21103, 35422]"
definition kandoushi :: str where "kandoushi = [24863, 21205, 35422]"
definition keiyoushi :: str where "keiyoushi = [24418, 23481, 35422]"
definition keiyoudoushi :: str where "keiyoudoushi = [24418, 23481, 21205, 35422]"
definition rentaishi :: str where "rentaishi = [36899, 20307, 35422]"
definition setsubi :: str where "setsubi = [25509, 23614]"
definition sahen_setsuzoku :: str where "sahen_setsuzoku = [12469, 22793, 25509, 32154]"
definition hijiritsu :: str where "hijiritsu = [38750, 33258, 31435]"
definition sahen_suru :: str where "sahen_suru = [12469, 22793, 12539, 12473, 12523]"

definition phrase_break_pos_tags :: "str list" where
  "phrase_break_pos_tags =
     [meishi, doushi, settoushi, fukushi, kandoushi, keiyoushi, keiyoudoushi, rentaishi]"

text \<open>\<open>','.join([token['pos_detail_1'], token['pos_detail_2'], token['pos_detail_3']])\<close>.\<close>

definition pos_detail_of :: "token \<Rightarrow> str" where
  "pos_detail_of token =
     str_join [COMMA] [pos_detail_1 token, pos_detail_2 token, pos_detail_3 token]"

text \<open>
  Lines 101 to 110: the break decision for \<open>token\<close>. The first argument is the parameter
  \<open>consider_non_independent_nouns_as_breaks\<close>. \<open>if previous_token:\<close> holds for every
  token, a dictionary with ten keys, and fails for \<open>None\<close>.
\<close>

definition should_break :: "bool \<Rightarrow> token option \<Rightarrow> token \<Rightarrow> bool" where
  "should_break consider_non_independent_nouns_as_breaks previous_token token =
     (let pos_info = pos token;
          pos_detail = pos_detail_of token;
          should_break = (pos_info \<in> set phrase_break_pos_tags)
      in if \<not> consider_non_independent_nouns_as_breaks then
           (let should_break = (should_break \<and> \<not> contains setsubi pos_detail);
                should_break = (should_break \<and> \<not> (pos_info = doushi \<and> contains sahen_setsuzoku pos_detail));
                should_break = (should_break \<and> \<not> contains hijiritsu pos_detail)
            in case previous_token of
                 None \<Rightarrow> should_break
               | Some previous \<Rightarrow>
                   (let previous_pos_info = pos previous;
                        previous_pos_detail = pos_detail_of previous;
                        should_break = (should_break \<and> previous_pos_info \<noteq> settoushi);
                        should_break = (should_break \<and>
                          \<not> (contains sahen_setsuzoku previous_pos_detail \<and> pos_info = doushi
                              \<and> conjugated_type token = sahen_suru))
                    in should_break))
         else should_break)"

text \<open>
  The loop of lines 94 to 119, returning the phrases appended so far and the phrase being
  built. A phrase is appended to \<open>segmented_text\<close> only just before \<open>current_phrase\<close> is
  bound to a new dictionary, so no appended phrase is written to afterwards.
\<close>

fun phrases_loop ::
  "bool \<Rightarrow> phrase list \<Rightarrow> phrase \<Rightarrow> token option \<Rightarrow> token list \<Rightarrow> phrase list \<times> phrase" where
  "phrases_loop flag segmented_text current_phrase previous_token [] =
     (segmented_text, current_phrase)"
| "phrases_loop flag segmented_text current_phrase previous_token (token # tokens) =
     (let word_surface = surface_form token;
          word_pronunciation = pronunciation token;
          break = should_break flag previous_token token;
          segmented_text =
            (if break \<and> surface current_phrase \<noteq> [] then segmented_text @ [current_phrase]
             else segmented_text);
          current_phrase =
            (if break then \<lparr>pronunciation = [], surface = []\<rparr> else current_phrase);
          current_phrase = current_phrase\<lparr>surface := surface current_phrase @ word_surface\<rparr>;
          current_phrase =
            current_phrase\<lparr>pronunciation := pronunciation current_phrase @ word_pronunciation\<rparr>
      in phrases_loop flag segmented_text current_phrase (Some token) tokens)"

text \<open>Lines 88 to 123: \<open>split_text_into_phrases\<close> once the text is tokenized.\<close>

definition split_tokens_into_phrases :: "token list \<Rightarrow> bool \<Rightarrow> phrase list" where
  "split_tokens_into_phrases tokens consider_non_independent_nouns_as_breaks =
     (let (segmented_text, current_phrase) =
            phrases_loop consider_non_independent_nouns_as_breaks []
              \<lparr>pronunciation = [], surface = []\<rparr> None tokens
      in if surface current_phrase \<noteq> [] then segmented_text @ [current_phrase]
         else segmented_text)"


text \<open>
  The break decision in the specification's words, for comparison: the base condition, and
  under \<open>suppress_dependent_breaks\<close> each of the suppression rules as well.
\<close>

definition spec_break_condition :: "bool \<Rightarrow> token option \<Rightarrow> token \<Rightarrow> bool" where
  "spec_break_condition suppress_dependent_breaks previous_token token =
     (pos token \<in> {meishi, doushi, settoushi, fukushi, kandoushi, keiyoushi, keiyoudoushi, rentaishi}
      \<and> (if suppress_dependent_breaks then
            \<not> contains setsubi (pos_detail_of token)
            \<and> \<not> (pos token = doushi \<and> contains sahen_setsuzoku (pos_detail_of token))
            \<and> \<not> contains hijiritsu (pos_detail_of token)
            \<and> (case previous_token of
                 None \<Rightarrow> True
               | Some previous \<Rightarrow>
                   pos previous \<noteq> settoushi
                   \<and> \<not> (contains sahen_setsuzoku (pos_detail_of previous)
                        \<and> pos token = doushi \<and> conjugated_type token = sahen_suru))
          else True))"

section \<open>Reference word list\<close>

text \<open>\<open>get_pronunciation\<close>: tokens with an empty pronunciation are skipped by the generator.\<close>

definition get_pronunciation :: "(str \<Rightarrow> str) \<Rightarrow> str \<Rightarrow> error + str" where
  "get_pronunciation parse text =
     (case tokenize parse text of
        Inl e \<Rightarrow> Inl e
      | Inr tokens \<Rightarrow>
          Inr (concat (map pronunciation (filter (\<lambda>token. pronunciation token \<noteq> []) tokens))))"

text \<open>The loop of \<open>load_wordlist\<close> over \<open>enumerate(lines)\<close>; \<open>n\<close> is the next id.\<close>

fun load_loop ::
  "(str \<Rightarrow> str) \<Rightarrow> word_entry list \<Rightarrow> nat \<Rightarrow> str list \<Rightarrow> error + word_entry list" where
  "load_loop parse wordlist n [] = Inr wordlist"
| "load_loop parse wordlist n (line # lines) =
     (case get_pronunciation parse line of
        Inl e \<Rightarrow> Inl e
      | Inr p \<Rightarrow>
          load_loop parse (wordlist @ [\<lparr>pronunciation = p, surface = line, id_entry = n\<rparr>])
            (Suc n) lines)"

definition load_lines :: "(str \<Rightarrow> str) \<Rightarrow> str list \<Rightarrow> error + word_entry list" where
  "load_lines parse lines = load_loop parse [] 0 lines"

text \<open>\<open>load_wordlist\<close> on the content of the file, which is read outside the model.\<close>

definition load_wordlist :: "(str \<Rightarrow> str) \<Rightarrow> str \<Rightarrow> error + word_entry list" where
  "load_wordlist parse content = load_lines parse (str_splitlines content)"

section \<open>Closest words\<close>



section \<open>Example inputs\<close>

text \<open>
  A toy tagger for evaluating the functions above on concrete texts: it reports every
  character of the text as a noun whose reading and pronunciation are the character
  itself, one line \<open>c\tnoun,*,*,*,*,*,c,c,c\<close> per character, then the line \<open>EOS\<close>.
\<close>

definition example_parse :: "str \<Rightarrow> str" where
  "example_parse text =
     concat (map (\<lambda>c. [c, TAB] @ meishi @ [44, 42, 44, 42, 44, 42, 44, 42, 44, 42, 44]
                        @ [c, 44, c, 44, c, 10]) text)
     @ [69, 79, 83, 10]"

text \<open>A noun \<open>[1]\<close>, a suffix noun \<open>[2]\<close>, and a token with a pronunciation but no surface.\<close>

definition example_noun :: token where
  "example_noun = \<lparr>pronunciation = [101], surface_form = [1], pos = meishi,
     pos_detail_1 = STAR, pos_detail_2 = STAR, pos_detail_3 = STAR, conjugated_type = STAR,
     conjugated_form = STAR, basic_form = [1], reading = [101]\<rparr>"

definition example_suffix :: token where
  "example_suffix = \<lparr>pronunciation = [102], surface_form = [2], pos = meishi,
     pos_detail_1 = setsubi, pos_detail_2 = STAR, pos_detail_3 = STAR, conjugated_type = STAR,
     conjugated_form = STAR, basic_form = [2], reading = [102]\<rparr>"

definition example_silent :: token where
  "example_silent = \<lparr>pronunciation = [103], surface_form = [], pos = meishi,
     pos_detail_1 = STAR, pos_detail_2 = STAR, pos_detail_3 = STAR, conjugated_type = STAR,
     conjugated_form = STAR, basic_form = [], reading = [103]\<rparr>"

text \<open>Three word-list entries pronounced \<open>[7, 8]\<close>, \<open>[5]\<close> and \<open>[6]\<close>, and a store holding them.\<close>

definition example_wordlist :: "word_entry list" where
  "example_wordlist =
     [\<lparr>pronunciation = [7, 8], surface = [7, 8], id_entry = 0\<rparr>,
      \<lparr>pronunciation = [5], surface = [5], id_entry = 1\<rparr>,
      \<lparr>pronunciation = [6], surface = [6], id_entry = 2\<rparr>]"

definition example_store :: store where
  "example_store = [WordList example_wordlist]"

section \<open>Properties of ranking\<close>

lemma sort_by_distance_sort_key:
  "sort_by_distance ed_eval q ws = sort_key (calculate_distance ed_eval q) ws"
proof -
  have "map fst (sort_key snd (map (\<lambda>w. (w, f w)) xs)) = sort_key f xs" for f :: "'c \<Rightarrow> nat" and xs
  proof (induction xs)
    case Nil
    show ?case by simp
  next
    case (Cons x xs)
    have ins: "map fst (insort_key snd (x, f x) ps) = insort_key f x (map fst ps)"
      if "\<forall>p \<in> set ps. snd p = f (fst p)" for ps
      using that by (induction ps) auto
    have pairs: "\<forall>p \<in> set (sort_key snd (map (\<lambda>w. (w, f w)) xs)). snd p = f (fst p)"
      by auto
    show ?case using Cons ins [OF pairs] by simp
  qed
  then show ?thesis by (simp add: sort_by_distance_def sorted_key_def)
qed

text \<open>
  C3: the list returned by \<open>sort_by_distance\<close> is in non-decreasing order of the edit
  distance between the query's pronunciation and each candidate's pronunciation, and for
  every distance \<open>k\<close> the candidates at distance \<open>k\<close> appear in the result in the order
  they had in the input (stable tie-break).
\<close>

theorem sort_by_distance_sorted_stable:
  "sorted (map (\<lambda>w. ed_eval (pronunciation q) (pronunciation w)) (sort_by_distance ed_eval q ws))
   \<and> filter (\<lambda>w. ed_eval (pronunciation q) (pronunciation w) = k) (sort_by_distance ed_eval q ws)
       = filter (\<lambda>w. ed_eval (pronunciation q) (pronunciation w) = k) ws"
proof -
  let ?d = "\<lambda>w. ed_eval (pronunciation q) (pronunciation w)"
  have d: "calculate_distance ed_eval q = ?d"
    by (simp add: calculate_distance_def fun_eq_iff)
  have "sorted (map ?d (sort_key ?d ws))" by (rule sorted_sort_key)
  moreover have "filter (\<lambda>w. ?d w = k) (sort_key ?d ws) = filter (\<lambda>w. ?d w = k) ws"
    by (rule sort_key_stable)
  ultimately show ?thesis by (simp add: sort_by_distance_sort_key d)
qed

text \<open>
  C4: on an empty candidate list \<open>sort_by_distance\<close> returns the empty list without
  error, and taking the closest entry (\<open>sorted_words[0]\<close>) fails; the error Python raises
  there is \<open>IndexError\<close>, which is what the specification calls EmptyCandidateSet.
\<close>

theorem empty_candidates:
  "sort_by_distance ed_eval q [] = [] \<and> match_closest ed_eval q [] = Inl IndexError"
  by (simp add: sort_by_distance_def sorted_key_def match_closest_def index_def)

section \<open>Properties of segmentation\<close>

lemmas example_defs = example_noun_def example_suffix_def example_silent_def meishi_def STAR_def
  setsubi_def doushi_def settoushi_def fukushi_def kandoushi_def keiyoushi_def keiyoudoushi_def
  rentaishi_def sahen_setsuzoku_def hijiritsu_def sahen_suru_def COMMA_def TAB_def

lemmas segment_defs = should_break_def spec_break_condition_def phrase_break_pos_tags_def
  pos_detail_of_def split_tokens_into_phrases_def Let_def

lemma phrases_loop_surface:
  "phrases_loop flag seg cur prev tokens = (seg', cur') \<Longrightarrow>
   concat (map surface seg') @ surface cur'
     = concat (map surface seg) @ surface cur @ concat (map surface_form tokens)"
  by (induction tokens arbitrary: seg cur prev) (auto simp: Let_def split: if_splits)

lemma phrases_loop_nonempty:
  "phrases_loop flag seg cur prev tokens = (seg', cur') \<Longrightarrow>
   \<forall>p \<in> set seg. surface p \<noteq> [] \<Longrightarrow> \<forall>p \<in> set seg'. surface p \<noteq> []"
proof (induction tokens arbitrary: seg cur prev)
  case Nil
  then show ?case by simp
next
  case (Cons t ts)
  let ?b = "should_break flag prev t"
  let ?seg = "if ?b \<and> surface cur \<noteq> [] then seg @ [cur] else seg"
  have "\<forall>p \<in> set ?seg. surface p \<noteq> []" using Cons.prems(2) by simp
  moreover obtain c where "phrases_loop flag ?seg c (Some t) ts = (seg', cur')"
    using Cons.prems(1) by (simp add: Let_def)
  ultimately show ?case using Cons.IH by blast
qed

lemma phrases_loop_pronunciation:
  "phrases_loop flag seg cur prev tokens = (seg', cur') \<Longrightarrow>
   \<forall>t \<in> set tokens. surface_form t = [] \<longrightarrow> pronunciation t = [] \<Longrightarrow>
   surface cur = [] \<longrightarrow> pronunciation cur = [] \<Longrightarrow>
   (surface cur' = [] \<longrightarrow> pronunciation cur' = []) \<and>
   concat (map pronunciation seg') @ pronunciation cur'
     = concat (map pronunciation seg) @ pronunciation cur @ concat (map pronunciation tokens)"
  by (induction tokens arbitrary: seg cur prev) (auto simp: Let_def split: if_splits)

text \<open>
  C1, as amended: the suppression rules narrow the base condition exactly when the flag
  \<open>consider_non_independent_nouns_as_breaks\<close> is false; when it is true, the default, the
  base condition alone decides. The flag of the code is the negation of the
  specification's \<open>suppress_dependent_breaks\<close>.
\<close>

theorem should_break_flag:
  "should_break flag previous_token token = spec_break_condition (\<not> flag) previous_token token"
  by (auto simp: should_break_def spec_break_condition_def phrase_break_pos_tags_def Let_def
           split: option.splits)

theorem should_break_flag_witness:
  "should_break False (Some example_noun) example_suffix
     = spec_break_condition True (Some example_noun) example_suffix
   \<and> \<not> should_break False (Some example_noun) example_suffix"
  using should_break_flag [of False "Some example_noun" example_suffix]
  by (simp add: example_defs segment_defs)

text \<open>
  The claim as stated fails: with the flag true, a suffix noun after a noun breaks the
  phrase, although the suppression rules would keep it attached.
\<close>

theorem should_break_flag_true_counterexample:
  "should_break True (Some example_noun) example_suffix
   \<and> \<not> spec_break_condition True (Some example_noun) example_suffix"
  by (simp add: example_defs segment_defs)

text \<open>
  C2: the surfaces of the emitted phrases, concatenated in order, are the surface forms of
  the tokens, concatenated in order, for either value of the flag.
\<close>

theorem surface_preservation:
  "concat (map surface (split_tokens_into_phrases tokens flag)) = concat (map surface_form tokens)"
proof -
  obtain seg cur where
    l: "phrases_loop flag [] \<lparr>pronunciation = [], surface = []\<rparr> None tokens = (seg, cur)"
    by (cases "phrases_loop flag [] \<lparr>pronunciation = [], surface = []\<rparr> None tokens")
  from phrases_loop_surface [OF l] show ?thesis
    by (auto simp: split_tokens_into_phrases_def l)
qed

text \<open>C5: no emitted phrase, the final one included, has an empty surface.\<close>

theorem no_empty_phrase:
  "\<forall>p \<in> set (split_tokens_into_phrases tokens flag). surface p \<noteq> []"
proof -
  obtain seg cur where
    l: "phrases_loop flag [] \<lparr>pronunciation = [], surface = []\<rparr> None tokens = (seg, cur)"
    by (cases "phrases_loop flag [] \<lparr>pronunciation = [], surface = []\<rparr> None tokens")
  from phrases_loop_nonempty [OF l] have "\<forall>p \<in> set seg. surface p \<noteq> []" by simp
  then show ?thesis
    by (auto simp: split_tokens_into_phrases_def l)
qed

theorem no_empty_phrase_witness:
  "\<lparr>pronunciation = [101, 102], surface = [1, 2]\<rparr>
     \<in> set (split_tokens_into_phrases [example_noun, example_suffix] False)
   \<and> surface \<lparr>pronunciation = [101, 102], surface = [1, 2]\<rparr> \<noteq> []"
proof -
  have m: "\<lparr>pronunciation = [101, 102], surface = [1, 2]\<rparr>
             \<in> set (split_tokens_into_phrases [example_noun, example_suffix] False)"
    by (simp add: example_defs segment_defs)
  with no_empty_phrase [of "[example_noun, example_suffix]" False] show ?thesis by blast
qed

text \<open>
  C10, as amended: when every token with an empty surface form also has an empty
  pronunciation (in particular when no token has an empty surface form), the
  pronunciations of the emitted phrases, concatenated in order, are the pronunciations of
  the tokens, concatenated in order.
\<close>

theorem pronunciation_preservation:
  assumes "\<forall>t \<in> set tokens. surface_form t = [] \<longrightarrow> pronunciation t = []"
  shows "concat (map pronunciation (split_tokens_into_phrases tokens flag))
           = concat (map pronunciation tokens)"
proof -
  obtain seg cur where
    l: "phrases_loop flag [] \<lparr>pronunciation = [], surface = []\<rparr> None tokens = (seg, cur)"
    by (cases "phrases_loop flag [] \<lparr>pronunciation = [], surface = []\<rparr> None tokens")
  from phrases_loop_pronunciation [OF l assms] show ?thesis
    by (auto simp: split_tokens_into_phrases_def l)
qed


theorem pronunciation_preservation_witness:
  "surface_form example_noun \<noteq> [] \<and> surface_form example_suffix \<noteq> []
   \<and> concat (map pronunciation (split_tokens_into_phrases [example_noun, example_suffix] True))
       = [101, 102]"
proof -
  have s: "surface_form example_noun \<noteq> [] \<and> surface_form example_suffix \<noteq> []"
    by (simp add: example_noun_def example_suffix_def)
  have h: "\<forall>t \<in> set [example_noun, example_suffix]. surface_form t = [] \<longrightarrow> pronunciation t = []"
    by (simp add: example_noun_def example_suffix_def)
  have v: "concat (map pronunciation [example_noun, example_suffix]) = [101, 102]"
    by (simp add: example_noun_def example_suffix_def)
  have e: "concat (map pronunciation (split_tokens_into_phrases [example_noun, example_suffix] True))
             = concat (map pronunciation [example_noun, example_suffix])"
    by (rule pronunciation_preservation [OF h])
  from s trans [OF e v] show ?thesis by blast
qed

text \<open>
  The claim as stated fails: a token with a pronunciation and an empty surface form leaves
  the accumulator's surface empty, so the phrase holding its pronunciation is never emitted.
\<close>

theorem pronunciation_lost_counterexample:
  "concat (map pronunciation (split_tokens_into_phrases [example_silent] True))
     \<noteq> concat (map pronunciation [example_silent])"
  by (simp add: example_defs segment_defs)
section \<open>Properties of the store model\<close>

text \<open>
  C9: the list \<open>sort_by_distance\<close> returns holds the entries of the candidate list, each as
  often as there and none changed (the two lists are equal as multisets), and the call
  leaves every list that was in the store, the candidate list among them, as it was: the
  result is a newly allocated list.
\<close>

theorem sort_by_distance_permutation:
  assumes "wordlist < length h" "h ! wordlist = WordList ws"
  shows "\<exists>h' r. sort_by_distance_store ed q wordlist h = Some (h', r)
     \<and> (\<forall>a<length h. h' ! a = h ! a)
     \<and> h' ! r = WordList (sort_by_distance ed q ws)
     \<and> mset (sort_by_distance ed q ws) = mset ws"
proof -
  have "mset (sort_by_distance ed q ws) = mset ws"
    by (simp add: sort_by_distance_sort_key)
  then show ?thesis using assms
    by (simp add: sort_by_distance_store_def alloc_def nth_append sort_by_distance_def Let_def)
qed

theorem sort_by_distance_permutation_witness:
  "0 < length example_store \<and> example_store ! 0 = WordList example_wordlist \<and>
   (\<exists>h' r. sort_by_distance_store levenshtein \<lparr>pronunciation = [5], surface = [5]\<rparr> 0 example_store = Some (h', r)
      \<and> h' ! 0 = WordList example_wordlist
      \<and> h' ! r = WordList (sort_by_distance levenshtein \<lparr>pronunciation = [5], surface = [5]\<rparr> example_wordlist)
      \<and> mset (sort_by_distance levenshtein \<lparr>pronunciation = [5], surface = [5]\<rparr> example_wordlist) = mset example_wordlist)"
proof -
  have a: "0 < length example_store" by (simp add: example_store_def)
  have b: "example_store ! 0 = WordList example_wordlist" by (simp add: example_store_def)
  from sort_by_distance_permutation [OF a b, of levenshtein "\<lparr>pronunciation = [5], surface = [5]\<rparr>"]
  obtain h' r where
    "sort_by_distance_store levenshtein \<lparr>pronunciation = [5], surface = [5]\<rparr> 0 example_store = Some (h', r)"
    "\<forall>a<length example_store. h' ! a = example_store ! a"
    "h' ! r = WordList (sort_by_distance levenshtein \<lparr>pronunciation = [5], surface = [5]\<rparr> example_wordlist)"
    "mset (sort_by_distance levenshtein \<lparr>pronunciation = [5], surface = [5]\<rparr> example_wordlist) = mset example_wordlist"
    by blast
  with a b show ?thesis by auto
qed

section \<open>Properties of tokenizing\<close>

lemma split_aux_length: "length (split_aux sep cur s) = Suc (count_list s sep)"
  by (induction s arbitrary: cur) auto

lemma str_split_two: "sep \<in> set s \<Longrightarrow> \<exists>a b rest. str_split sep s = a # b # rest"
proof -
  assume "sep \<in> set s"
  then have "0 < count_list s sep" by (induction s) auto
  then have "2 \<le> length (str_split sep s)" by (simp add: str_split_def split_aux_length)
  then show ?thesis by (cases "str_split sep s" rule: list.exhaust; cases "tl (str_split sep s)") auto
qed

lemma str_split_one: "\<exists>a rest. str_split sep s = a # rest"
proof -
  have "1 \<le> length (str_split sep s)" by (simp add: str_split_def split_aux_length)
  then show ?thesis by (cases "str_split sep s") auto
qed

lemma list_of_length_8: "length xs = 8 \<Longrightarrow> \<exists>a b c d e f g h. xs = [a, b, c, d, e, f, g, h]"
  by (simp add: numeral_eq_Suc length_Suc_conv) blast

lemma padded_nth:
  "length D = 8 \<Longrightarrow> i < 8 \<Longrightarrow> take 8 (fs @ drop (length fs) D) ! i = (if i < length fs then fs ! i else D ! i)"
  by (simp add: nth_append)

lemma build_token_pad:
  assumes "take 8 (fs @ drop (length fs) [STAR, STAR, STAR, STAR, STAR, s, [], []]) = [d1, d2, d3, ct, cf, bf, r, pr]"
  shows "build_token s (p # fs) = Inr \<lparr>pronunciation = pr, surface_form = s, pos = p, pos_detail_1 = d1,
      pos_detail_2 = d2, pos_detail_3 = d3, conjugated_type = ct, conjugated_form = cf, basic_form = bf, reading = r\<rparr>"
proof -
  let ?D = "[STAR, STAR, STAR, STAR, STAR, s, [], []]"
  let ?R = "[d1, d2, d3, ct, cf, bf, r, pr]"
  have n: "?R ! i = (if i < length fs then fs ! i else ?D ! i)" if "i < 8" for i
    using padded_nth [of ?D i fs] that assms by simp
  have "d1 = (if 0 < length fs then fs ! 0 else STAR)" using n [of 0] by simp
  moreover have "d2 = (if 1 < length fs then fs ! 1 else STAR)" using n [of 1] by simp
  moreover have "d3 = (if 2 < length fs then fs ! 2 else STAR)" using n [of 2] by simp
  moreover have "ct = (if 3 < length fs then fs ! 3 else STAR)" using n [of 3] by simp
  moreover have "cf = (if 4 < length fs then fs ! 4 else STAR)" using n [of 4] by simp
  moreover have "bf = (if 5 < length fs then fs ! 5 else s)" using n [of 5] by simp
  moreover have "r = (if 6 < length fs then fs ! 6 else [])" using n [of 6] by simp
  moreover have "pr = (if 7 < length fs then fs ! 7 else [])" using n [of 7] by simp
  ultimately show ?thesis
    by (simp add: build_token_def index_def)
qed

lemma token_of_line_fields:
  assumes "TAB \<in> set line"
  shows "\<exists>word_surface grammar p fs d1 d2 d3 ct cf bf r pr.
     index (str_split TAB line) 0 = Inr word_surface \<and> index (str_split TAB line) 1 = Inr grammar
     \<and> str_split COMMA grammar = p # fs
     \<and> take 8 (fs @ drop (length fs) [STAR, STAR, STAR, STAR, STAR, word_surface, [], []])
         = [d1, d2, d3, ct, cf, bf, r, pr]
     \<and> token_of_line line = Inr \<lparr>pronunciation = pr, surface_form = word_surface, pos = p,
         pos_detail_1 = d1, pos_detail_2 = d2, pos_detail_3 = d3, conjugated_type = ct,
         conjugated_form = cf, basic_form = bf, reading = r\<rparr>"
proof -
  from str_split_two [OF assms] obtain s g rest where parts: "str_split TAB line = s # g # rest"
    by blast
  from str_split_one obtain p fs where pi: "str_split COMMA g = p # fs" by blast
  let ?pad = "take 8 (fs @ drop (length fs) [STAR, STAR, STAR, STAR, STAR, s, [], []])"
  have "length ?pad = 8" by simp
  from list_of_length_8 [OF this] obtain d1 d2 d3 ct cf bf r pr where pad: "?pad = [d1, d2, d3, ct, cf, bf, r, pr]"
    by blast
  have "token_of_line line = build_token s (p # fs)"
    by (simp add: token_of_line_def parts pi index_def)
  with build_token_pad [OF pad] parts pi pad show ?thesis
    by (simp add: index_def)
qed

lemma token_of_line_total: "TAB \<in> set line \<Longrightarrow> \<exists>t. token_of_line line = Inr t"
  using token_of_line_fields by blast

lemma tokenize_loop_total: "\<exists>ts. tokenize_loop acc ls = Inr ts"
proof (induction ls arbitrary: acc)
  case Nil
  show ?case by simp
next
  case (Cons l ls)
  show ?case
  proof (cases "TAB \<in> set l")
    case True
    from token_of_line_total [OF True] obtain t where "token_of_line l = Inr t" by blast
    with True Cons show ?thesis by simp
  next
    case False
    with Cons show ?thesis by simp
  qed
qed

lemma tokenize_total: "\<exists>ts. tokenize parse text = Inr ts"
  by (simp add: tokenize_def tokenize_loop_total)

lemma build_token_take9: "build_token s fs = build_token s (take 9 fs)"
  by (cases fs) (simp_all add: build_token_def index_def)

lemma str_split_example_tab: "str_split TAB [97, 9, 98, 44, 99] = [[97], [98, 44, 99]]"
  by (simp add: str_split_def TAB_def)
lemma str_split_example_comma: "str_split COMMA [98, 44, 99] = [[98], [99]]"
  by (simp add: str_split_def COMMA_def)

lemma tokenize_example: "tokenize example_parse [5] = Inr [\<lparr>pronunciation = [5], surface_form = [5], pos = meishi,
     pos_detail_1 = STAR, pos_detail_2 = STAR, pos_detail_3 = STAR, conjugated_type = STAR,
     conjugated_form = STAR, basic_form = [5], reading = [5]\<rparr>]"
  by (simp add: tokenize_def example_parse_def str_splitlines_def is_linebreak_def TAB_def meishi_def
      token_of_line_def str_split_def index_def build_token_def COMMA_def STAR_def)

text \<open>
  C8: for a tagger line with a tab, building the token never fails. With \<open>p\<close> the first
  grammatical field and \<open>fs\<close> the fields after it, the eight defaulted keys take the first
  eight of \<open>fs\<close>, each absent trailing one replaced by the default of its position: \<open>*\<close> for
  \<open>pos_detail_1\<close> to \<open>pos_detail_3\<close>, \<open>conjugated_type\<close> and \<open>conjugated_form\<close>, the surface
  form for \<open>basic_form\<close>, the empty string for \<open>reading\<close> and \<open>pronunciation\<close>. Fields after
  the ninth are not read: the token is the one built from the first nine fields.
\<close>

theorem tokenize_field_defaults:
  assumes "TAB \<in> set line"
  shows "\<exists>word_surface grammar p fs d1 d2 d3 ct cf bf r pr.
     index (str_split TAB line) 0 = Inr word_surface \<and> index (str_split TAB line) 1 = Inr grammar
     \<and> str_split COMMA grammar = p # fs
     \<and> take 8 (fs @ drop (length fs) [STAR, STAR, STAR, STAR, STAR, word_surface, [], []])
         = [d1, d2, d3, ct, cf, bf, r, pr]
     \<and> token_of_line line = Inr \<lparr>pronunciation = pr, surface_form = word_surface, pos = p,
         pos_detail_1 = d1, pos_detail_2 = d2, pos_detail_3 = d3, conjugated_type = ct,
         conjugated_form = cf, basic_form = bf, reading = r\<rparr>
     \<and> token_of_line line = build_token word_surface (take 9 (p # fs))"
proof -
  from token_of_line_fields [OF assms] obtain word_surface grammar p fs d1 d2 d3 ct cf bf r pr where
    f: "index (str_split TAB line) 0 = Inr word_surface" "index (str_split TAB line) 1 = Inr grammar"
       "str_split COMMA grammar = p # fs"
       "take 8 (fs @ drop (length fs) [STAR, STAR, STAR, STAR, STAR, word_surface, [], []])
         = [d1, d2, d3, ct, cf, bf, r, pr]"
       "token_of_line line = Inr \<lparr>pronunciation = pr, surface_form = word_surface, pos = p,
         pos_detail_1 = d1, pos_detail_2 = d2, pos_detail_3 = d3, conjugated_type = ct,
         conjugated_form = cf, basic_form = bf, reading = r\<rparr>"
    by blast
  have "token_of_line line = build_token word_surface (p # fs)"
    using f(1,2,3) by (simp add: token_of_line_def)
  then have "token_of_line line = build_token word_surface (take 9 (p # fs))"
    using build_token_take9 [of word_surface "p # fs"] by simp
  with f show ?thesis by blast
qed

theorem tokenize_field_defaults_witness:
  "TAB \<in> set [97, 9, 98, 44, 99] \<and>
   token_of_line [97, 9, 98, 44, 99] = Inr \<lparr>pronunciation = [], surface_form = [97], pos = [98],
         pos_detail_1 = [99], pos_detail_2 = STAR, pos_detail_3 = STAR, conjugated_type = STAR,
         conjugated_form = STAR, basic_form = [97], reading = []\<rparr>"
proof -
  have t: "TAB \<in> set [97, 9, 98, 44, 99]" by (simp add: TAB_def)
  from tokenize_field_defaults [OF t] obtain word_surface grammar p fs d1 d2 d3 ct cf bf r pr where
    f: "index (str_split TAB [97, 9, 98, 44, 99]) 0 = Inr word_surface"
       "index (str_split TAB [97, 9, 98, 44, 99]) 1 = Inr grammar"
       "str_split COMMA grammar = p # fs"
       "take 8 (fs @ drop (length fs) [STAR, STAR, STAR, STAR, STAR, word_surface, [], []])
         = [d1, d2, d3, ct, cf, bf, r, pr]"
       "token_of_line [97, 9, 98, 44, 99] = Inr \<lparr>pronunciation = pr, surface_form = word_surface, pos = p,
         pos_detail_1 = d1, pos_detail_2 = d2, pos_detail_3 = d3, conjugated_type = ct,
         conjugated_form = cf, basic_form = bf, reading = r\<rparr>"
    by blast
  from f(1) have ws: "word_surface = [97]" by (simp add: str_split_example_tab index_def)
  from f(2) have g: "grammar = [98, 44, 99]" by (simp add: str_split_example_tab index_def)
  from f(3) have pf: "p = [98]" "fs = [[99]]" by (simp_all add: g str_split_example_comma)
  from f(4) have "d1 = [99] \<and> d2 = STAR \<and> d3 = STAR \<and> ct = STAR \<and> cf = STAR \<and> bf = [97] \<and> r = [] \<and> pr = []"
    by (simp add: pf ws)
  with f(5) ws pf t show ?thesis by simp
qed

section \<open>Properties of loading\<close>

lemma get_pronunciation_eq:
  "tokenize parse text = Inr ts \<Longrightarrow> get_pronunciation parse text = Inr (concat (map pronunciation ts))"
proof -
  assume t: "tokenize parse text = Inr ts"
  have "concat (map pronunciation (filter (\<lambda>t. pronunciation t \<noteq> []) ts)) = concat (map pronunciation ts)"
    by (induction ts) auto
  with t show ?thesis by (simp add: get_pronunciation_def)
qed

lemma load_loop_eq:
  "\<exists>es. load_loop parse acc n lines = Inr (acc @ es) \<and> length es = length lines \<and>
     (\<forall>i<length lines. \<exists>ts. tokenize parse (lines ! i) = Inr ts \<and>
         es ! i = \<lparr>pronunciation = concat (map pronunciation ts), surface = lines ! i, id_entry = n + i\<rparr>)"
proof (induction lines arbitrary: acc n)
  case Nil
  show ?case by simp
next
  case (Cons l ls)
  from tokenize_total obtain ts where ts: "tokenize parse l = Inr ts" by blast
  let ?e = "\<lparr>pronunciation = concat (map pronunciation ts), surface = l, id_entry = n\<rparr>"
  from Cons [of "acc @ [?e]" "Suc n"] obtain es where
    es: "load_loop parse (acc @ [?e]) (Suc n) ls = Inr ((acc @ [?e]) @ es)" "length es = length ls"
      "\<forall>i<length ls. \<exists>ts. tokenize parse (ls ! i) = Inr ts \<and>
         es ! i = \<lparr>pronunciation = concat (map pronunciation ts), surface = ls ! i, id_entry = Suc n + i\<rparr>"
    by blast
  have "load_loop parse acc n (l # ls) = Inr (acc @ (?e # es))"
    using es(1) by (simp add: get_pronunciation_eq [OF ts])
  moreover have "length (?e # es) = length (l # ls)" using es(2) by simp
  moreover have "\<forall>i<length (l # ls). \<exists>ts. tokenize parse ((l # ls) ! i) = Inr ts \<and>
         (?e # es) ! i = \<lparr>pronunciation = concat (map pronunciation ts), surface = (l # ls) ! i, id_entry = n + i\<rparr>"
  proof (intro allI impI)
    fix i assume "i < length (l # ls)"
    then show "\<exists>ts. tokenize parse ((l # ls) ! i) = Inr ts \<and>
         (?e # es) ! i = \<lparr>pronunciation = concat (map pronunciation ts), surface = (l # ls) ! i, id_entry = n + i\<rparr>"
      using ts es(3) by (cases i) auto
  qed
  ultimately show ?case by blast
qed

text \<open>
  C6: loading never fails and gives one entry per line, in input order; the entry at
  position \<open>i\<close> has id \<open>i\<close>, the raw line as surface, and as pronunciation the
  concatenation of the pronunciations of the tokens of the whole line.
\<close>

theorem load_lines_entries:
  "\<exists>entries. load_lines parse lines = Inr entries \<and> length entries = length lines \<and>
     (\<forall>i<length lines. \<exists>tokens. tokenize parse (lines ! i) = Inr tokens \<and>
         entries ! i = \<lparr>pronunciation = concat (map pronunciation tokens), surface = lines ! i, id_entry = i\<rparr>)"
  using load_loop_eq [of parse "[]" 0 lines] by (simp add: load_lines_def)

theorem load_lines_entries_witness:
  "\<exists>entries tokens. load_lines example_parse [[7, 8], [5]] = Inr entries \<and> length entries = 2
     \<and> tokenize example_parse [5] = Inr tokens
     \<and> entries ! 1 = \<lparr>pronunciation = concat (map pronunciation tokens), surface = [5], id_entry = 1\<rparr>
     \<and> entries ! 1 = \<lparr>pronunciation = [5], surface = [5], id_entry = 1\<rparr>"
proof -
  from load_lines_entries [of example_parse "[[7, 8], [5]]"] obtain entries where
    e: "load_lines example_parse [[7, 8], [5]] = Inr entries" "length entries = length [[7, 8], [5::nat]]"
       "\<forall>i<length [[7, 8], [5::nat]]. \<exists>tokens. tokenize example_parse ([[7, 8], [5]] ! i) = Inr tokens \<and>
         entries ! i = \<lparr>pronunciation = concat (map pronunciation tokens), surface = [[7, 8], [5]] ! i, id_entry = i\<rparr>"
    by blast
  have "1 < length [[7, 8], [5::nat]]" by simp
  from e(3) [rule_format, OF this] obtain tokens where
    t0: "tokenize example_parse ([[7, 8], [5]] ! 1) = Inr tokens"
      "entries ! 1 = \<lparr>pronunciation = concat (map pronunciation tokens),
         surface = [[7, 8], [5]] ! 1, id_entry = 1\<rparr>"
    by blast
  then have t: "tokenize example_parse [5] = Inr tokens"
      "entries ! 1 = \<lparr>pronunciation = concat (map pronunciation tokens), surface = [5], id_entry = 1\<rparr>"
    by simp_all
  from t(1) have "concat (map pronunciation tokens) = [5]" by (auto simp: tokenize_example)
  with e(1,2) t show ?thesis by auto
qed

section \<open>Properties of the closest words\<close>




end
